theory Spec2Isabelle
  imports Main "HOL-Library.Word"
begin

unbundle bit_operations_syntax

section \<open>Common types\<close>

type_synonym byte = "8 word"
type_synonym bytes = "byte list"

text \<open>
  Go errors are opaque values handed from one call to its caller. The constructors name
  the kinds of failure the collaborators of this repository report; \<open>ErrOther\<close> stands
  for any further error value.
\<close>

datatype error =
    NotFoundError
  | DecodeError
  | OverflowError
  | DuplicatePathError
  | StoreError
  | ErrWriteTooLong
  | ErrMissedWriting
  | Canceled
  | DeadlineExceeded
  | ErrOther string

section \<open>Export engine (internal/exporter/exporter.go)\<close>

subsection \<open>Constants\<close>

definition ExportVersionFilename :: string where
  "ExportVersionFilename = ''.swarm-export-version''"

definition CurrentExportVersion :: string where
  "CurrentExportVersion = ''1''"

definition DefaultExportFilename :: string where
  "DefaultExportFilename = ''swarm-exportdb.tar''"

text \<open>\<open>[]byte(s)\<close> for a Go string: its bytes, one per character.\<close>

definition bytes_of_string :: "string \<Rightarrow> bytes" where
  "bytes_of_string s = map (\<lambda>c. of_nat (of_char c)) s"

subsection \<open>encoding/hex\<close>

definition hextable :: string where
  "hextable = ''0123456789abcdef''"

text \<open>
  \<open>hex.EncodeToString\<close>: every byte \<open>v\<close> gives \<open>hextable[v >> 4]\<close> and then
  \<open>hextable[v & 0x0f]\<close>.
\<close>

fun EncodeToString :: "bytes \<Rightarrow> string" where
  "EncodeToString [] = []"
| "EncodeToString (v # src) =
     hextable ! unat (drop_bit 4 v) # hextable ! unat (v AND 0x0f) # EncodeToString src"

subsection \<open>Index records and archive entries\<close>

text \<open>\<open>shed.Item\<close>, with the four fields the retrieval index stores.\<close>

record Item =
  Address :: bytes
  Data :: bytes
  StoreTimestamp :: "64 word"
  BinID :: "64 word"

text \<open>\<open>tar.Header\<close>, with the fields \<open>export\<close> sets (the mode \<open>0644\<close> is 420).\<close>

record Header =
  Name :: string
  Mode :: nat
  Size :: int

text \<open>
  The surroundings of one export. The index holds \<open>idx_items\<close> in its iteration order
  (LevelDB iterates keys in ascending byte order, and the key of a record is its
  address). Every fallible call of \<open>export\<close> on a collaborator has its outcome here:
  \<open>count_err\<close> for \<open>Count\<close>, \<open>create_err\<close> for \<open>os.Create\<close>, \<open>tw_err n\<close> for the
  \<open>n\<close>-th call (from 0) on the tar writer, \<open>iter_err\<close> for the error the iterator
  reports when \<open>Iterate\<close> ends.
\<close>

record export_env =
  idx_items :: "Item list"
  count_err :: "error option"
  create_err :: "error option"
  tw_err :: "nat \<Rightarrow> error option"
  iter_err :: "error option"

text \<open>
  What an export leaves behind: the entries of the archive, the number of calls made on
  the tar writer, the calls \<open>Update(done, total)\<close> on the progress sink in order, and
  whether the deferred \<open>Close\<close> of the index and of the tar writer ran.
\<close>

record export_state =
  archive :: "(Header \<times> bytes) list"
  tw_calls :: nat
  updates :: "(nat \<times> nat) list"
  index_closed :: bool
  tw_closed :: bool

definition init_state :: export_state where
  "init_state = \<lparr>archive = [], tw_calls = 0, updates = [], index_closed = False,
     tw_closed = False\<rparr>"

subsection \<open>archive/tar writer\<close>

text \<open>
  \<open>tw.WriteHeader\<close> finishes the entry before it, which fails when that entry's payload
  is shorter than its declared size, and opens a new entry with an empty payload.
\<close>

definition entry_complete :: "Header \<times> bytes \<Rightarrow> bool" where
  "entry_complete hp = (int (length (snd hp)) = Size (fst hp))"

definition WriteHeader :: "export_env \<Rightarrow> Header \<Rightarrow> export_state \<Rightarrow> error + export_state" where
  "WriteHeader env hdr s =
     (case tw_err env (tw_calls s) of
        Some err \<Rightarrow> Inl err
      | None \<Rightarrow>
          if archive s \<noteq> [] \<and> \<not> entry_complete (last (archive s)) then Inl ErrMissedWriting
          else Inr (s\<lparr>archive := archive s @ [(hdr, [])], tw_calls := Suc (tw_calls s)\<rparr>))"

text \<open>
  \<open>tw.Write\<close> appends to the payload of the open entry, and fails when the payload would
  grow beyond the declared size.
\<close>

definition Write :: "export_env \<Rightarrow> bytes \<Rightarrow> export_state \<Rightarrow> error + export_state" where
  "Write env b s =
     (case tw_err env (tw_calls s) of
        Some err \<Rightarrow> Inl err
      | None \<Rightarrow>
          if archive s = [] then (if b = [] then Inr (s\<lparr>tw_calls := Suc (tw_calls s)\<rparr>)
                                  else Inl ErrWriteTooLong)
          else
            let (hdr, payload) = last (archive s) in
            if int (length payload + length b) > Size hdr then Inl ErrWriteTooLong
            else Inr (s\<lparr>archive := butlast (archive s) @ [(hdr, payload @ b)],
                        tw_calls := Suc (tw_calls s)\<rparr>))"

subsection \<open>shed index\<close>

text \<open>\<open>Count\<close>: the number of records, or the error of the index.\<close>

definition Count :: "export_env \<Rightarrow> error + nat" where
  "Count env = (case count_err env of Some err \<Rightarrow> Inl err | None \<Rightarrow> Inr (length (idx_items env)))"

text \<open>
  \<open>Iterate fn\<close> calls \<open>fn\<close> on every record in order until \<open>fn\<close> asks to stop or returns
  an error; when the records are exhausted or \<open>fn\<close> stopped, it returns the iterator's
  own error. The state that the Go closure captures is threaded through \<open>fn\<close>.
\<close>

fun Iterate ::
  "(Item \<Rightarrow> 's \<Rightarrow> (bool \<times> error option) \<times> 's) \<Rightarrow> error option \<Rightarrow> Item list \<Rightarrow> 's
     \<Rightarrow> error option \<times> 's" where
  "Iterate fn ierr [] s = (ierr, s)"
| "Iterate fn ierr (item # items) s =
     (case fn item s of
        ((_, Some err), s') \<Rightarrow> (Some err, s')
      | ((True, None), s') \<Rightarrow> (ierr, s')
      | ((False, None), s') \<Rightarrow> Iterate fn ierr items s')"

subsection \<open>export\<close>

text \<open>
  The closure handed to \<open>Iterate\<close>. It captures the tar writer, \<open>doneCount\<close> and
  \<open>total\<close>; the state threaded through is the export state and \<open>doneCount\<close>.
\<close>

definition export_item ::
  "export_env \<Rightarrow> nat \<Rightarrow> Item \<Rightarrow> export_state \<times> nat \<Rightarrow> (bool \<times> error option) \<times> (export_state \<times> nat)" where
  "export_item env total' item sd =
     (let (s, doneCount) = sd;
          hdr = \<lparr>Name = EncodeToString (Address item), Mode = 420,
                 Size = int (length (Data item))\<rparr>
      in case WriteHeader env hdr s of
           Inl err \<Rightarrow> ((False, Some err), (s, doneCount))
         | Inr s1 \<Rightarrow>
            (case Write env (Data item) s1 of
               Inl err \<Rightarrow> ((False, Some err), (s1, doneCount))
             | Inr s2 \<Rightarrow>
                 let doneCount' = doneCount + 1 in
                 ((False, None), (s2\<lparr>updates := updates s2 @ [(doneCount', total')]\<rparr>, doneCount'))))"

definition version_header :: Header where
  "version_header = \<lparr>Name = ExportVersionFilename, Mode = 420,
     Size = int (length CurrentExportVersion)\<rparr>"

text \<open>
  \<open>export\<close> returns its error (\<open>None\<close> for \<open>nil\<close>) and the state it leaves. The deferred
  \<open>e.closer.Close()\<close> runs on every return, the deferred \<open>tw.Close()\<close> on every return
  after the tar writer was made.
\<close>

definition export :: "export_env \<Rightarrow> error option \<times> export_state" where
  "export env =
     (let closed = (\<lambda>s. s\<lparr>index_closed := True\<rparr>);
          closed2 = (\<lambda>s. s\<lparr>index_closed := True, tw_closed := True\<rparr>)
      in case Count env of
           Inl err \<Rightarrow> (Some err, closed init_state)
         | Inr total' \<Rightarrow>
            (case create_err env of
               Some err \<Rightarrow> (Some err, closed init_state)
             | None \<Rightarrow>
                (case WriteHeader env version_header init_state of
                   Inl err \<Rightarrow> (Some err, closed2 init_state)
                 | Inr s1 \<Rightarrow>
                    (case Write env (bytes_of_string CurrentExportVersion) s1 of
                       Inl err \<Rightarrow> (Some err, closed2 s1)
                     | Inr s2 \<Rightarrow>
                         let doneCount = 0;
                             s3 = s2\<lparr>updates := updates s2 @ [(doneCount, total')]\<rparr>;
                             (res, (s4, _)) =
                               Iterate (export_item env total') (iter_err env) (idx_items env)
                                 (s3, doneCount)
                         in (res, closed2 s4)))))"

subsection \<open>Auxiliary notions for the export\<close>

text \<open>The archive entry \<open>export\<close> writes for one record, and the entry of the version marker.\<close>

definition entry_of :: "Item \<Rightarrow> Header \<times> bytes" where
  "entry_of item = (\<lparr>Name = EncodeToString (Address item), Mode = 420,
      Size = int (length (Data item))\<rparr>, Data item)"

definition version_entry :: "Header \<times> bytes" where
  "version_entry = (version_header, bytes_of_string CurrentExportVersion)"

text \<open>The tar writer accepts a new header: no entry is open with payload still missing.\<close>

definition all_complete :: "export_state \<Rightarrow> bool" where
  "all_complete s = (archive s = [] \<or> entry_complete (last (archive s)))"

text \<open>The state when the iteration starts: the version entry is written, \<open>Update(0, n)\<close> made.\<close>

definition after_version :: "nat \<Rightarrow> export_state" where
  "after_version n = \<lparr>archive = [version_entry], tw_calls = Suc (Suc 0), updates = [(0, n)],
      index_closed = False, tw_closed = False\<rparr>"

text \<open>An index of two records and an empty index, with collaborators that do not fail.\<close>

definition env0 :: export_env where
  "env0 = \<lparr>idx_items =
       [\<lparr>Address = [0x0a, 0x1f], Data = [1, 2, 3], StoreTimestamp = 7, BinID = 1\<rparr>,
        \<lparr>Address = [0xb0], Data = [], StoreTimestamp = 8, BinID = 2\<rparr>],
     count_err = None, create_err = None, tw_err = (\<lambda>_. None), iter_err = None\<rparr>"

definition st0 :: export_state where
  "st0 = \<lparr>archive =
       [(\<lparr>Name = ''.swarm-export-version'', Mode = 420, Size = 1\<rparr>, [49]),
        (\<lparr>Name = ''0a1f'', Mode = 420, Size = 3\<rparr>, [1, 2, 3]),
        (\<lparr>Name = ''b0'', Mode = 420, Size = 0\<rparr>, [])],
     tw_calls = 6, updates = [(0, 2), (1, 2), (2, 2)], index_closed = True, tw_closed = True\<rparr>"

definition env_empty :: export_env where
  "env_empty = \<lparr>idx_items = [], count_err = None, create_err = None, tw_err = (\<lambda>_. None),
     iter_err = None\<rparr>"

section \<open>Migration (package repair)\<close>

subsection \<open>Constants of the swarm and manifest packages\<close>

type_synonym address = bytes

definition ZeroAddress :: address where
  "ZeroAddress = []"

definition ChunkSize :: nat where
  "ChunkSize = 4096"

definition limitMetadataLength :: nat where
  "limitMetadataLength = ChunkSize"

definition RootPath :: string where
  "RootPath = ''/''"


definition WebsiteErrorDocumentPathKey :: string where
  "WebsiteErrorDocumentPathKey = ''website-error-document''"

definition EntryMetadataFilenameKey :: string where
  "EntryMetadataFilenameKey = ''Filename''"

definition EntryMetadataContentTypeKey :: string where
  "EntryMetadataContentTypeKey = ''Content-Type''"

subsection \<open>Data\<close>

text \<open>
  The legacy entry (\<open>entry.Entry\<close>, read through \<open>Reference()\<close> and \<open>Metadata()\<close>) and
  its metadata record (\<open>entry.Metadata\<close>).
\<close>

record Entry =
  reference :: address
  metadata :: address

record Metadata =
  Filename :: string
  MimeType :: string

text \<open>The struct \<open>fileEntry\<close>; its fields are \<open>filepath\<close>, \<open>e\<close> and \<open>mtdt\<close>.\<close>

record fileEntry =
  filepath :: string
  entry :: Entry
  mtdt :: Metadata

text \<open>An entry of the new manifest (\<open>manifest.NewEntry(reference, metadata)\<close>).\<close>

record mEntry =
  Ref :: address
  Meta :: "string \<rightharpoonup> string"

definition NewEntry :: "address \<Rightarrow> (string \<rightharpoonup> string) \<Rightarrow> mEntry" where
  "NewEntry r md = \<lparr>Ref = r, Meta = md\<rparr>"

text \<open>
  A decoded legacy trie (\<open>mantaray.Node\<close>) is known to this package through two
  calls only: \<open>LookupNode\<close>, which yields the entry bytes and the metadata map of the node
  at a path, and \<open>Walk\<close>, which visits paths in its depth-first order, telling for each
  whether it is a directory and whether the walker met an error there, and which may end
  with an error of its own. The record holds the answers of the trie to these calls.
\<close>

record NodeInfo =
  n_entry :: bytes
  n_metadata :: "string \<rightharpoonup> string"

record Node =
  LookupNode :: "string \<Rightarrow> error + NodeInfo"
  WalkVisits :: "(string \<times> bool \<times> error option) list"
  WalkErr :: "error option"

text \<open>
  The new manifest under construction: its paths with their entries, in the order of
  insertion.
\<close>

type_synonym manifest = "(string \<times> mEntry) list"

text \<open>
  The collaborators the \<open>Repairer\<close> is configured with, each by the outcome of its
  calls: \<open>store_get\<close> is the content the joiner delivers for an address (or the error
  of \<open>joiner.New\<close> or of a read); the three decoders are \<open>Entry.UnmarshalBinary\<close>,
  \<open>json.Unmarshal\<close> into \<open>entry.Metadata\<close> and \<open>Node.UnmarshalBinary\<close>;
  \<open>new_manifest_err\<close> is the error of \<open>manifest.NewDefaultManifest\<close>, \<open>add_err p\<close> the
  failure of the persistence under \<open>Add\<close> of path \<open>p\<close>, and \<open>store_result\<close> the outcome
  of \<open>Store\<close> on a manifest.
\<close>

record world =
  store_get :: "address \<Rightarrow> error + bytes"
  UnmarshalEntry :: "bytes \<Rightarrow> error + Entry"
  UnmarshalMetadata :: "bytes \<Rightarrow> error + Metadata"
  UnmarshalNode :: "bytes \<Rightarrow> error + Node"
  new_manifest_err :: "error option"
  add_err :: "string \<Rightarrow> error option"
  store_result :: "manifest \<Rightarrow> error + address"

text \<open>
  What a migration does that can be observed from outside, in order: the launch of the
  walk task (\<open>go func()\<close>), the calls \<open>Update(msg)\<close> on the progress sink, the calls
  \<open>Add(path, entry)\<close> and \<open>Store()\<close> on the new manifest with their outcomes.
\<close>

datatype event =
    EvGo
  | EvUpdate string
  | EvAdd string mEntry "error option"
  | EvStore manifest "error + address"

fun is_update :: "event \<Rightarrow> bool" where
  "is_update (EvUpdate _) = True"
| "is_update _ = False"

fun is_add :: "event \<Rightarrow> bool" where
  "is_add (EvAdd _ _ _) = True"
| "is_add _ = False"

fun is_store :: "event \<Rightarrow> bool" where
  "is_store (EvStore _ _) = True"
| "is_store _ = False"

text \<open>The error an event reports, if any.\<close>

fun ev_err :: "event \<Rightarrow> error option" where
  "ev_err (EvAdd _ _ r) = r"
| "ev_err (EvStore _ (Inl err)) = Some err"
| "ev_err _ = None"


subsection \<open>Reading from the store\<close>

text \<open>
  A writer takes what \<open>file.JoinReadAll\<close> copies into it. \<open>Buffer\<close> is
  \<open>bytes.NewBuffer(nil)\<close>, which takes everything.
\<close>

type_synonym writer = "bytes \<Rightarrow> error + bytes"

definition Buffer :: writer where
  "Buffer b = Inr b"

text \<open>
  Modelled from the spec: \<open>NewLimitWriteCloser\<close> of package \<open>pkg/file\<close>, which is not
  among the sources. The specification describes it as the bounded read that aborts when
  more than a fixed ceiling of bytes is read.
\<close>

definition NewLimitWriteCloser :: "writer \<Rightarrow> nat \<Rightarrow> writer" where
  "NewLimitWriteCloser wr limit b = (if length b > limit then Inl OverflowError else wr b)"

definition joiner_New :: "world \<Rightarrow> address \<Rightarrow> error + bytes" where
  "joiner_New w addr = store_get w addr"

definition JoinReadAll :: "bytes \<Rightarrow> writer \<Rightarrow> error + bytes" where
  "JoinReadAll j wr = wr j"

subsection \<open>getOldFileEntry\<close>

definition getOldFileEntry :: "world \<Rightarrow> address \<Rightarrow> error + fileEntry" where
  "getOldFileEntry w addr =
     (let limitBuf = NewLimitWriteCloser Buffer limitMetadataLength in
      case joiner_New w addr of
        Inl err \<Rightarrow> Inl err
      | Inr j \<Rightarrow>
       (case JoinReadAll j limitBuf of
          Inl err \<Rightarrow> Inl err
        | Inr buf \<Rightarrow>
         (case UnmarshalEntry w buf of
            Inl err \<Rightarrow> Inl err
          | Inr en \<Rightarrow>
           (case joiner_New w (metadata en) of
              Inl err \<Rightarrow> Inl err
            | Inr j' \<Rightarrow>
             (case JoinReadAll j' Buffer of
                Inl err \<Rightarrow> Inl err
              | Inr buf' \<Rightarrow>
               (case UnmarshalMetadata w buf' of
                  Inl err \<Rightarrow> Inl err
                | Inr metaData \<Rightarrow> Inr \<lparr>filepath = [], entry = en, mtdt = metaData\<rparr>))))))"

subsection \<open>The new manifest\<close>

definition NewDefaultManifest :: "world \<Rightarrow> error + manifest" where
  "NewDefaultManifest w = (case new_manifest_err w of Some err \<Rightarrow> Inl err | None \<Rightarrow> Inr [])"

text \<open>
  \<open>Add\<close> of the manifest builder, as its specification states it: it fails when the path
  was added before, or when the persistence underneath fails; otherwise the path has the
  entry from now on.
\<close>

definition Add :: "world \<Rightarrow> manifest \<Rightarrow> string \<Rightarrow> mEntry \<Rightarrow> error + manifest" where
  "Add w m path en =
     (if path \<in> fst ` set m then Inl DuplicatePathError
      else case add_err w path of Some err \<Rightarrow> Inl err | None \<Rightarrow> Inr (m @ [(path, en)]))"

definition Store :: "world \<Rightarrow> manifest \<Rightarrow> error + address" where
  "Store w m = store_result w m"


text \<open>The result of \<open>Add\<close> as the event records it.\<close>

definition err_of :: "error + 'a \<Rightarrow> error option" where
  "err_of r = (case r of Inl err \<Rightarrow> Some err | Inr _ \<Rightarrow> None)"

subsection \<open>FileRepair\<close>

definition update_msg :: "string \<Rightarrow> string" where
  "update_msg fname = ''Updating reference for file '' @ fname"


subsection \<open>The walk task and its channels\<close>

text \<open>
  The closure \<open>walkFn\<close>. Besides its error it yields what it sends on \<open>entryChan\<close>:
  nothing, or the one file entry of a leaf.
\<close>

definition walkFn ::
  "world \<Rightarrow> Node \<Rightarrow> string \<Rightarrow> bool \<Rightarrow> error option \<Rightarrow> error option \<times> fileEntry list" where
  "walkFn w node path isDir err =
     (case err of
        Some er \<Rightarrow> (Some er, [])
      | None \<Rightarrow>
          if \<not> isDir then
            (case LookupNode node path of
               Inl er \<Rightarrow> (Some er, [])
             | Inr fnode \<Rightarrow>
                (case getOldFileEntry w (n_entry fnode) of
                   Inl er \<Rightarrow> (Some er, [])
                 | Inr fentry \<Rightarrow> (None, [fentry\<lparr>filepath := path\<rparr>])))
          else (None, []))"

text \<open>
  \<open>node.Walk\<close> calls the function on every visit in order and stops at the first error
  the function returns; after the last visit it returns the walker's own error.
\<close>

fun Walk ::
  "(string \<Rightarrow> bool \<Rightarrow> error option \<Rightarrow> error option \<times> 'a list)
     \<Rightarrow> (string \<times> bool \<times> error option) list \<Rightarrow> error option \<Rightarrow> error option \<times> 'a list" where
  "Walk fn [] werr = (werr, [])"
| "Walk fn ((path, isDir, er) # visits) werr =
     (case fn path isDir er of
        (Some err, out) \<Rightarrow> (Some err, out)
      | (None, out) \<Rightarrow> (let (res, out') = Walk fn visits werr in (res, out @ out')))"

text \<open>
  What the walk task does to the two channels when it runs to its end: the sends on
  \<open>entryChan\<close> made by \<open>walkFn\<close> during the walk, then the send of the error of the walk
  on \<open>errChan\<close> if there is one, then the two deferred calls of \<open>close\<close>, last deferred
  first.
\<close>

datatype chan_op =
    SendFile fileEntry
  | SendErr error
  | CloseErrC
  | CloseFilesC

text \<open>
  The task stores the error of the walk in the variable \<open>err\<close> of
  \<open>getOldDirectoryEntry\<close>, which that function assigns again while the task runs; here
  the task has a variable of its own.
\<close>

definition walk_task :: "world \<Rightarrow> Node \<Rightarrow> chan_op list" where
  "walk_task w node =
     (let (err, sent) = Walk (walkFn w node) (WalkVisits node) (WalkErr node)
      in map SendFile sent
         @ (case err of Some er \<Rightarrow> [SendErr er] | None \<Rightarrow> [])
         @ [CloseErrC, CloseFilesC])"

subsection \<open>getOldDirectoryEntry\<close>

text \<open>
  The struct \<open>dirEntry\<close>: the manifest \<open>m\<close>, and the receiving ends \<open>filesC\<close> and \<open>errC\<close>
  of the two channels, given by the operations the walk task still has to make on them.
\<close>

record dirEntry =
  dir_m :: manifest
  dir_chans :: "chan_op list"

definition getOldDirectoryEntry :: "world \<Rightarrow> address \<Rightarrow> (error + dirEntry) \<times> event list" where
  "getOldDirectoryEntry w addr =
     (case joiner_New w addr of
        Inl err \<Rightarrow> (Inl err, [])
      | Inr j \<Rightarrow>
       (case JoinReadAll j Buffer of
          Inl err \<Rightarrow> (Inl err, [])
        | Inr buf \<Rightarrow>
         (case UnmarshalNode w buf of
            Inl err \<Rightarrow> (Inl err, [])
          | Inr node \<Rightarrow>
           (case LookupNode node RootPath of
              Inl err \<Rightarrow> (Inl err, [])
            | Inr rootNode \<Rightarrow>
               let task = walk_task w node in
               (case NewDefaultManifest w of
                  Inl err \<Rightarrow> (Inl err, [EvGo])
                | Inr m \<Rightarrow>
                   let en = NewEntry ZeroAddress (n_metadata rootNode);
                       r = Add w m RootPath en
                   in
                   (case r of
                      Inl err \<Rightarrow> (Inl err, [EvGo, EvAdd RootPath en (Some err)])
                    | Inr m' \<Rightarrow>
                        (Inr \<lparr>dir_m = m', dir_chans = task\<rparr>,
                         [EvGo, EvAdd RootPath en None])))))))"

subsection \<open>DirectoryRepair\<close>

text \<open>
  The context of one call. Rounds count the executions of the \<open>select\<close> statement, from
  0; as each round but the last receives one file entry, round \<open>i\<close> starts when \<open>i\<close>
  entries have been delivered. \<open>cancel_at = Some n\<close> says that the cancellation signal
  fires after \<open>n\<close> entries have been delivered: \<open>ctx.Done()\<close> is closed from round \<open>n\<close>
  on. \<open>cause\<close> is what \<open>ctx.Err()\<close> returns from then on. When \<open>ctx.Done()\<close> is ready
  together with a channel, \<open>select\<close> takes either; \<open>takes_done i\<close> tells whether the
  \<open>select\<close> of round \<open>i\<close> takes \<open>ctx.Done()\<close> when it is ready.
\<close>

record Context =
  cancel_at :: "nat option"
  cause :: error
  takes_done :: "nat \<Rightarrow> bool"

definition Done :: "Context \<Rightarrow> nat \<Rightarrow> bool" where
  "Done ctx i = (case cancel_at ctx of Some n \<Rightarrow> n \<le> i | None \<Rightarrow> False)"

definition Err :: "Context \<Rightarrow> nat \<Rightarrow> error option" where
  "Err ctx i = (if Done ctx i then Some (cause ctx) else None)"

text \<open>
  The loop labelled \<open>loop\<close>. Its result is \<open>Inl err\<close> for \<open>return swarm.ZeroAddress, err\<close>
  and \<open>Inr m\<close> for \<open>break loop\<close> with the manifest \<open>m\<close>. The operation the walk task makes
  next decides which channel is ready: a send on \<open>filesC\<close>, a send on \<open>errC\<close>, or, once
  the task is closing or has closed the channels, a receive that yields \<open>ok = false\<close>.
\<close>

fun select_loop ::
  "world \<Rightarrow> Context \<Rightarrow> nat \<Rightarrow> manifest \<Rightarrow> chan_op list \<Rightarrow> (error + manifest) \<times> event list" where
  "select_loop w ctx i m ops =
     (if Done ctx i \<and> takes_done ctx i then
        (case Err ctx i of Some err \<Rightarrow> (Inl err, []) | None \<Rightarrow> (Inr m, []))
      else
        (case ops of
           SendFile f # ops' \<Rightarrow>
             let en = NewEntry (reference (entry f))
                        [EntryMetadataFilenameKey \<mapsto> Filename (mtdt f),
                         EntryMetadataContentTypeKey \<mapsto> MimeType (mtdt f)];
                 r = Add w m (filepath f) en;
                 evs = [EvUpdate (update_msg (Filename (mtdt f))), EvAdd (filepath f) en (err_of r)]
             in
             (case r of
                Inl err \<Rightarrow> (Inl err, evs)
              | Inr m' \<Rightarrow> (let (res, evs') = select_loop w ctx (Suc i) m' ops' in (res, evs @ evs')))
         | SendErr er # ops' \<Rightarrow> (Inl er, [])
         | CloseErrC # ops' \<Rightarrow> (Inr m, [])
         | CloseFilesC # ops' \<Rightarrow> (Inr m, [])
         | [] \<Rightarrow> (Inr m, [])))"

definition DirectoryRepair ::
  "world \<Rightarrow> Context \<Rightarrow> address \<Rightarrow> (address \<times> error option) \<times> event list" where
  "DirectoryRepair w ctx addr =
     (case getOldDirectoryEntry w addr of
        (Inl err, evs) \<Rightarrow> ((ZeroAddress, Some err), evs)
      | (Inr dir, evs) \<Rightarrow>
         (case select_loop w ctx 0 (dir_m dir) (dir_chans dir) of
            (Inl err, evs') \<Rightarrow> ((ZeroAddress, Some err), evs @ evs')
          | (Inr m, evs') \<Rightarrow>
             (case Store w m of
                Inl err \<Rightarrow> ((ZeroAddress, Some err), evs @ evs' @ [EvStore m (Inl err)])
              | Inr newReference \<Rightarrow>
                  ((newReference, None), evs @ evs' @ [EvStore m (Inr newReference)]))))"

subsection \<open>Auxiliary notions for the migration\<close>

text \<open>
  The manifest entry and the two events that the loop of \<open>DirectoryRepair\<close> makes of a
  file entry it receives, when its \<open>Add\<close> succeeds.
\<close>

definition leaf_entry :: "fileEntry \<Rightarrow> mEntry" where
  "leaf_entry f = \<lparr>Ref = reference (entry f),
      Meta = [EntryMetadataFilenameKey \<mapsto> Filename (mtdt f),
              EntryMetadataContentTypeKey \<mapsto> MimeType (mtdt f)]\<rparr>"

definition leaf_events :: "fileEntry \<Rightarrow> event list" where
  "leaf_events f =
     [EvUpdate (update_msg (Filename (mtdt f))), EvAdd (filepath f) (leaf_entry f) None]"

text \<open>The send on \<open>errChan\<close>, made when the walk returned an error.\<close>

definition err_part :: "error option \<Rightarrow> chan_op list" where
  "err_part err = (case err of Some er \<Rightarrow> [SendErr er] | None \<Rightarrow> [])"


text \<open>A visit of the walk is a leaf (a file) when it is not reported as a directory.\<close>

definition is_leaf :: "string \<times> bool \<times> error option \<Rightarrow> bool" where
  "is_leaf v = (\<not> fst (snd v))"

subsection \<open>A legacy store for examples\<close>

text \<open>
  A directory at address \<open>d0\<close> with the files \<open>a.txt\<close> and \<open>c/d.tar\<close> and with index and
  error documents set at its root; a trie at \<open>d1\<close> without a root path entry; the legacy
  entries of the two files at \<open>e1\<close> and \<open>e2\<close>, their metadata at \<open>a1\<close> and \<open>a2\<close>.
\<close>

definition node1 :: Node where
  "node1 = \<lparr>LookupNode = (\<lambda>p.
        if p = ''/'' then Inr \<lparr>n_entry = [], n_metadata =
              [''website-index-document'' \<mapsto> ''b.jpeg'',
               ''website-error-document'' \<mapsto> ''a.txt'']\<rparr>
        else if p = ''a.txt'' then Inr \<lparr>n_entry = [0xe1], n_metadata = Map.empty\<rparr>
        else if p = ''c/d.tar'' then Inr \<lparr>n_entry = [0xe2], n_metadata = Map.empty\<rparr>
        else Inl NotFoundError),
     WalkVisits = [(''/'', True, None), (''a.txt'', False, None), (''c/'', True, None),
                   (''c/d.tar'', False, None)],
     WalkErr = None\<rparr>"

definition node_noroot :: Node where
  "node_noroot = \<lparr>LookupNode = (\<lambda>p. Inl NotFoundError), WalkVisits = [], WalkErr = None\<rparr>"

definition w1 :: world where
  "w1 = \<lparr>store_get = (\<lambda>a.
        if a = [0xd0] then Inr [0x10] else if a = [0xd1] then Inr [0x11]
        else if a = [0xe1] then Inr [1, 1] else if a = [0xa1] then Inr [2, 1]
        else if a = [0xe2] then Inr [1, 2] else if a = [0xa2] then Inr [2, 2]
        else Inl NotFoundError),
     UnmarshalEntry = (\<lambda>b.
        if b = [1, 1] then Inr \<lparr>reference = [0xf1], metadata = [0xa1]\<rparr>
        else if b = [1, 2] then Inr \<lparr>reference = [0xf2], metadata = [0xa2]\<rparr>
        else Inl DecodeError),
     UnmarshalMetadata = (\<lambda>b.
        if b = [2, 1] then Inr \<lparr>Filename = ''a.txt'', MimeType = ''text/plain; charset=utf-8''\<rparr>
        else if b = [2, 2] then Inr \<lparr>Filename = ''d.tar'', MimeType = ''application/x-tar''\<rparr>
        else Inl DecodeError),
     UnmarshalNode = (\<lambda>b.
        if b = [0x10] then Inr node1 else if b = [0x11] then Inr node_noroot
        else Inl DecodeError),
     new_manifest_err = None,
     add_err = (\<lambda>_. None),
     store_result = (\<lambda>m. Inr [0x99])\<rparr>"

text \<open>
  Three contexts: one never cancelled; one cancelled after one entry has been delivered,
  where \<open>select\<close> takes \<open>ctx.Done()\<close> as soon as it is ready; one cancelled after two
  entries have been delivered, where \<open>select\<close> takes the channel that is ready as well.
\<close>

definition ctx_bg :: Context where
  "ctx_bg = \<lparr>cancel_at = None, cause = Canceled, takes_done = (\<lambda>_. True)\<rparr>"



text \<open>
  A legacy file whose metadata blob is one byte longer than a chunk, and which the
  metadata decoder accepts (as it accepts a JSON text with a long file name).
\<close>

definition big_metadata :: bytes where
  "big_metadata = replicate (Suc ChunkSize) 0x20"

definition w_big :: world where
  "w_big = \<lparr>store_get = (\<lambda>a.
        if a = [0xe3] then Inr [1, 3] else if a = [0xa3] then Inr big_metadata
        else Inl NotFoundError),
     UnmarshalEntry = (\<lambda>b.
        if b = [1, 3] then Inr \<lparr>reference = [0xf3], metadata = [0xa3]\<rparr> else Inl DecodeError),
     UnmarshalMetadata = (\<lambda>b.
        if b = big_metadata then Inr \<lparr>Filename = ''long.txt'', MimeType = ''text/plain''\<rparr>
        else Inl DecodeError),
     UnmarshalNode = (\<lambda>b. Inl DecodeError),
     new_manifest_err = None,
     add_err = (\<lambda>_. None),
     store_result = (\<lambda>m. Inr [0x99])\<rparr>"

text \<open>
  What the migrations of this store make: the entries of the new manifests, the
  manifests, the events, and the operations of the walk task on the two channels.
\<close>

definition root1 :: mEntry where
  "root1 = \<lparr>Ref = [], Meta = [''website-index-document'' \<mapsto> ''b.jpeg'',
                                  ''website-error-document'' \<mapsto> ''a.txt'']\<rparr>"

definition leaf_a :: mEntry where
  "leaf_a = \<lparr>Ref = [0xf1], Meta = [''Filename'' \<mapsto> ''a.txt'',
                                     ''Content-Type'' \<mapsto> ''text/plain; charset=utf-8'']\<rparr>"

definition leaf_d :: mEntry where
  "leaf_d = \<lparr>Ref = [0xf2], Meta = [''Filename'' \<mapsto> ''d.tar'',
                                     ''Content-Type'' \<mapsto> ''application/x-tar'']\<rparr>"

definition m_dir :: manifest where
  "m_dir = [(''/'', root1), (''a.txt'', leaf_a), (''c/d.tar'', leaf_d)]"

definition evs_dir :: "event list" where
  "evs_dir = [EvGo, EvAdd ''/'' root1 None,
     EvUpdate ''Updating reference for file a.txt'', EvAdd ''a.txt'' leaf_a None,
     EvUpdate ''Updating reference for file d.tar'', EvAdd ''c/d.tar'' leaf_d None,
     EvStore m_dir (Inr [0x99])]"

definition evs_mid :: "event list" where
  "evs_mid = [EvGo, EvAdd ''/'' root1 None,
     EvUpdate ''Updating reference for file a.txt'', EvAdd ''a.txt'' leaf_a None]"

definition task1 :: "chan_op list" where
  "task1 =
     [SendFile \<lparr>filepath = ''a.txt'', entry = \<lparr>reference = [0xf1], metadata = [0xa1]\<rparr>,
                mtdt = \<lparr>Filename = ''a.txt'', MimeType = ''text/plain; charset=utf-8''\<rparr>\<rparr>,
      SendFile \<lparr>filepath = ''c/d.tar'', entry = \<lparr>reference = [0xf2], metadata = [0xa2]\<rparr>,
                mtdt = \<lparr>Filename = ''d.tar'', MimeType = ''application/x-tar''\<rparr>\<rparr>,
      CloseErrC, CloseFilesC]"




section \<open>Properties of the export engine\<close>

subsection \<open>Hex names\<close>

lemma nib_hi: "unat (drop_bit 4 (v::byte)) < 16"
proof -
  have "unat v < 256" using unsigned_less[of v, where ?'a=nat] by simp
  moreover have "unat (drop_bit 4 v) = drop_bit 4 (unat v)" by (rule unat_drop_bit_eq)
  ultimately show ?thesis by (simp add: drop_bit_eq_div)
qed

lemma nib_lo: "unat ((v::byte) AND 0x0f) < 16"
proof -
  have "v AND 0x0f \<le> 0x0f"
    by (rule word_and_le1)
  then have "unat (v AND 0x0f) \<le> unat (0x0f :: byte)"
    by (simp only: word_le_nat_alt)
  then show ?thesis by simp
qed

lemma hextable_nth: "n < 16 \<Longrightarrow> hextable ! n \<in> set hextable"
  by (rule nth_mem) (simp add: hextable_def)

lemma EncodeToString_chars: "set (EncodeToString a) \<subseteq> set hextable"
  by (induction a) (auto simp: hextable_nth nib_hi nib_lo)

lemma EncodeToString_length: "length (EncodeToString a) = 2 * length a"
  by (induction a) auto

subsection \<open>One record, and the iteration\<close>

lemma export_item_step:
  assumes "all_complete s"
  shows "export_item env t item (s, d) =
     (case tw_err env (tw_calls s) of
        Some err \<Rightarrow> ((False, Some err), (s, d))
      | None \<Rightarrow>
         (case tw_err env (Suc (tw_calls s)) of
            Some err \<Rightarrow> ((False, Some err),
               (s\<lparr>archive := archive s @ [(fst (entry_of item), [])],
                  tw_calls := Suc (tw_calls s)\<rparr>, d))
          | None \<Rightarrow> ((False, None),
               (s\<lparr>archive := archive s @ [entry_of item], tw_calls := Suc (Suc (tw_calls s)),
                   updates := updates s @ [(Suc d, t)]\<rparr>, Suc d))))"
  using assms
  by (auto simp: export_item_def WriteHeader_def Write_def entry_of_def all_complete_def Let_def
      split: option.splits)

lemma all_complete_snoc:
  "all_complete (s\<lparr>archive := archive s @ [entry_of item], tw_calls := c, updates := u\<rparr>)"
  by (simp add: all_complete_def entry_complete_def entry_of_def)

lemma all_complete_after_version: "all_complete (after_version n)"
  by (simp add: after_version_def all_complete_def entry_complete_def version_entry_def
      version_header_def bytes_of_string_def)

text \<open>
  However the iteration ends, it has written the entries of the first \<open>k\<close> records, made
  one \<open>Update\<close> after each of them, and at most opened the entry of the next record.
\<close>

lemma Iterate_export_any:
  "all_complete s \<Longrightarrow>
   Iterate (export_item env t) ierr items (s, d) = (res, (s', d')) \<Longrightarrow>
   \<exists>k\<le>length items. \<exists>part.
      updates s' = updates s @ map (\<lambda>j. (j, t)) [Suc d..<Suc (d + k)] \<and>
      archive s' = archive s @ map entry_of (take k items) @ part \<and> length part \<le> 1 \<and>
      (res = None \<longrightarrow> k = length items \<and> part = [])"
proof (induction items arbitrary: s d)
  case Nil
  then show ?case by auto
next
  case (Cons item items)
  show ?case
  proof (cases "tw_err env (tw_calls s)")
    case (Some e)
    with Cons.prems have "res = Some e" "s' = s"
      by (simp_all add: export_item_step)
    then show ?thesis
      by (intro exI[of _ 0] exI[of _ "[]"]) simp
  next
    case None
    note h1 = this
    show ?thesis
    proof (cases "tw_err env (Suc (tw_calls s))")
      case (Some e)
      with h1 Cons.prems have "res = Some e"
        "s' = s\<lparr>archive := archive s @ [(fst (entry_of item), [])],
                 tw_calls := Suc (tw_calls s)\<rparr>"
        by (simp_all add: export_item_step)
      then show ?thesis
        by (intro exI[of _ 0] exI[of _ "[(fst (entry_of item), [])]"]) simp
    next
      case None
      let ?s1 = "s\<lparr>archive := archive s @ [entry_of item], tw_calls := Suc (Suc (tw_calls s)),
                   updates := updates s @ [(Suc d, t)]\<rparr>"
      from h1 None Cons.prems
      have it: "Iterate (export_item env t) ierr items (?s1, Suc d) = (res, (s', d'))"
        by (simp add: export_item_step)
      from Cons.IH[OF all_complete_snoc it]
      obtain k part where k: "k \<le> length items"
         "updates s' = updates ?s1 @ map (\<lambda>j. (j, t)) [Suc (Suc d)..<Suc (Suc d + k)]"
         "archive s' = archive ?s1 @ map entry_of (take k items) @ part" "length part \<le> 1"
         "res = None \<longrightarrow> k = length items \<and> part = []"
        by auto
      show ?thesis
        using k by (intro exI[of _ "Suc k"] exI[of _ part]) (simp add: upt_conv_Cons)
    qed
  qed
qed

subsection \<open>The whole export\<close>

lemma export_unfold:
  "export env =
    (case count_err env of
       Some err \<Rightarrow> (Some err, init_state\<lparr>index_closed := True\<rparr>)
     | None \<Rightarrow>
      (case create_err env of
         Some err \<Rightarrow> (Some err, init_state\<lparr>index_closed := True\<rparr>)
       | None \<Rightarrow>
        (case tw_err env 0 of
           Some err \<Rightarrow> (Some err, init_state\<lparr>index_closed := True, tw_closed := True\<rparr>)
         | None \<Rightarrow>
          (case tw_err env 1 of
             Some err \<Rightarrow> (Some err, \<lparr>archive = [(version_header, [])], tw_calls = Suc 0,
                              updates = [], index_closed = True, tw_closed = True\<rparr>)
           | None \<Rightarrow>
              (case Iterate (export_item env (length (idx_items env))) (iter_err env)
                      (idx_items env) (after_version (length (idx_items env)), 0) of
                 (res, (s4, _)) \<Rightarrow> (res, s4\<lparr>index_closed := True, tw_closed := True\<rparr>))))))"
  by (simp add: export_def Count_def WriteHeader_def Write_def init_state_def after_version_def
      version_entry_def version_header_def bytes_of_string_def CurrentExportVersion_def
      split: option.splits prod.splits)

lemma export_shape:
  assumes "export env = (res, st)"
  shows "(updates st = [] \<and> res \<noteq> None \<and> length (archive st) \<le> 1) \<or>
     (\<exists>k\<le>length (idx_items env). \<exists>part.
        updates st = map (\<lambda>j. (j, length (idx_items env))) [0..<Suc k] \<and>
        archive st = version_entry # map entry_of (take k (idx_items env)) @ part \<and>
        length part \<le> 1 \<and>
        (res = None \<longrightarrow> k = length (idx_items env) \<and> part = []))"
proof (cases "count_err env = None \<and> create_err env = None \<and> tw_err env 0 = None
    \<and> tw_err env 1 = None")
  case False
  with assms show ?thesis
    by (auto simp: export_unfold init_state_def split: option.splits)
next
  case True
  let ?n = "length (idx_items env)"
  obtain r s4 d4 where it:
    "Iterate (export_item env ?n) (iter_err env) (idx_items env) (after_version ?n, 0)
       = (r, (s4, d4))"
    by (metis prod.exhaust)
  with True assms have st: "res = r" "st = s4\<lparr>index_closed := True, tw_closed := True\<rparr>"
    by (auto simp: export_unfold)
  from Iterate_export_any[OF all_complete_after_version it]
  obtain k part where k: "k \<le> ?n"
     "updates s4 = updates (after_version ?n) @ map (\<lambda>j. (j, ?n)) [Suc 0..<Suc (0 + k)]"
     "archive s4 = archive (after_version ?n) @ map entry_of (take k (idx_items env)) @ part"
     "length part \<le> 1" "r = None \<longrightarrow> k = ?n \<and> part = []"
    by blast
  have "updates st = map (\<lambda>j. (j, ?n)) [0..<Suc k]"
    using k(2) st by (simp add: after_version_def upt_conv_Cons del: upt_Suc)
  moreover have "archive st = version_entry # map entry_of (take k (idx_items env)) @ part"
    using k(3) st by (simp add: after_version_def)
  ultimately show ?thesis using k(1,4,5) st by blast
qed

lemma Iterate_export_ok:
  "all_complete s \<Longrightarrow> \<forall>n. tw_err env n = None \<Longrightarrow>
   fst (Iterate (export_item env t) ierr items (s, d)) = ierr"
proof (induction items arbitrary: s d)
  case Nil
  then show ?case by simp
next
  case (Cons item items)
  then show ?case by (simp add: export_item_step all_complete_snoc)
qed

text \<open>With collaborators that do not fail, the export returns without error.\<close>

lemma export_succeeds:
  assumes "count_err env = None" and "create_err env = None" and "\<forall>n. tw_err env n = None"
    and "iter_err env = None"
  shows "fst (export env) = None"
proof -
  from Iterate_export_ok[OF all_complete_after_version assms(3)]
  have "fst (Iterate (export_item env (length (idx_items env))) (iter_err env) (idx_items env)
               (after_version (length (idx_items env)), 0)) = None"
    using assms(4) by simp
  with assms show ?thesis
    by (auto simp: export_unfold split: prod.splits)
qed

lemma export_env0: "export env0 = (None, st0)"
  unfolding st0_def by code_simp

text \<open>
  C3. A successful export leaves an archive whose first entry is the version marker (named
  by the literal version filename, with the literal version string as payload and that
  string's length as declared size), followed by exactly one entry per index record, in
  the iteration order of the index: each is named by the hex encoding of the record's
  address, carries the record's data as payload and declares the exact length of the
  payload as its size. The hex encoding uses the digits 0-9 and the lowercase letters a-f
  only, two per byte.
\<close>

theorem export_archive_format:
  assumes "export env = (None, st)"
  shows "archive st =
      (\<lparr>Name = ExportVersionFilename, Mode = 420, Size = int (length CurrentExportVersion)\<rparr>,
        bytes_of_string CurrentExportVersion)
      # map (\<lambda>item. (\<lparr>Name = EncodeToString (Address item), Mode = 420,
                         Size = int (length (Data item))\<rparr>, Data item)) (idx_items env)
    \<and> (\<forall>(hdr, payload) \<in> set (archive st). Size hdr = int (length payload))
    \<and> (\<forall>item \<in> set (idx_items env).
          set (EncodeToString (Address item)) \<subseteq> set ''0123456789abcdef''
          \<and> length (EncodeToString (Address item)) = 2 * length (Address item))"
proof -
  from export_shape[OF assms]
  have a: "archive st = version_entry # map entry_of (idx_items env)"
    by auto
  have e: "entry_of = (\<lambda>item. (\<lparr>Name = EncodeToString (Address item), Mode = 420,
                         Size = int (length (Data item))\<rparr>, Data item))"
    by (rule ext) (simp add: entry_of_def)
  have 1: "archive st =
      (\<lparr>Name = ExportVersionFilename, Mode = 420, Size = int (length CurrentExportVersion)\<rparr>,
        bytes_of_string CurrentExportVersion)
      # map (\<lambda>item. (\<lparr>Name = EncodeToString (Address item), Mode = 420,
                         Size = int (length (Data item))\<rparr>, Data item)) (idx_items env)"
    using a unfolding e by (simp add: version_entry_def version_header_def)
  have 2: "\<forall>(hdr, payload) \<in> set (archive st). Size hdr = int (length payload)"
    unfolding 1 by (auto simp: bytes_of_string_def)
  have 3: "\<forall>item \<in> set (idx_items env).
          set (EncodeToString (Address item)) \<subseteq> set ''0123456789abcdef''
          \<and> length (EncodeToString (Address item)) = 2 * length (Address item)"
    using EncodeToString_chars EncodeToString_length by (simp add: hextable_def)
  from 1 2 3 show ?thesis by blast
qed

theorem export_archive_format_witness:
  "export env0 = (None, st0)
   \<and> map (\<lambda>(hdr, payload). (Name hdr, Size hdr, payload)) (archive st0) =
       [(''.swarm-export-version'', 1, [49]), (''0a1f'', 3, [1, 2, 3]), (''b0'', 0, [])]"
proof -
  have h: "export env0 = (None, st0)" by (rule export_env0)
  from export_archive_format[OF h] show ?thesis
    using h by (simp add: env0_def ExportVersionFilename_def CurrentExportVersion_def
        bytes_of_string_def hextable_def)
qed

text \<open>
  C4. In one export the calls on the progress sink are \<open>Update(0, total)\<close>, made once
  before the iteration, and then one \<open>Update(doneCount, total)\<close> after each record
  written, with \<open>doneCount\<close> counting 1, 2, 3, ...: the counts increase strictly, none
  exceeds \<open>total\<close>, and every call carries the same \<open>total\<close>, the number of index
  records. An export that returns without error has made the calls for all the counts
  from 0 to \<open>total\<close>, so its last call is \<open>Update(total, total)\<close>. (An export that
  fails before the version entry is written makes no call at all.)
\<close>

theorem export_progress_sequence:
  assumes "export env = (res, st)"
  shows "((updates st = [] \<and> res \<noteq> None) \<or>
          (\<exists>k\<le>length (idx_items env). \<exists>part.
              updates st = map (\<lambda>j. (j, length (idx_items env))) [0..<Suc k]
              \<and> archive st = version_entry # map entry_of (take k (idx_items env)) @ part
              \<and> length part \<le> 1))
    \<and> sorted_wrt (<) (map fst (updates st))
    \<and> (\<forall>(d, t) \<in> set (updates st). d \<le> t \<and> t = length (idx_items env))
    \<and> (res = None \<longrightarrow>
          updates st = map (\<lambda>j. (j, length (idx_items env))) [0..<Suc (length (idx_items env))]
          \<and> last (updates st) = (length (idx_items env), length (idx_items env)))"
proof -
  let ?n = "length (idx_items env)"
  from export_shape[OF assms]
  consider (early) "updates st = []" "res \<noteq> None"
    | (late) k part where "k \<le> ?n" "updates st = map (\<lambda>j. (j, ?n)) [0..<Suc k]"
        "archive st = version_entry # map entry_of (take k (idx_items env)) @ part"
        "length part \<le> 1" "res = None \<longrightarrow> k = ?n \<and> part = []"
    by blast
  then show ?thesis
  proof cases
    case early
    then show ?thesis by simp
  next
    case late
    have fs: "map fst (updates st) = [0..<Suc k]"
      unfolding late(2) by (simp add: comp_def del: upt_Suc)
    have 1: "sorted_wrt (<) (map fst (updates st))"
      unfolding fs by (rule sorted_wrt_upt)
    have 2: "\<forall>(d, t) \<in> set (updates st). d \<le> t \<and> t = ?n"
      unfolding late(2) using late(1) by auto
    have 3: "res = None \<longrightarrow> updates st = map (\<lambda>j. (j, ?n)) [0..<Suc ?n]
               \<and> last (updates st) = (?n, ?n)"
      using late(2,5) by auto
    from late(1-4) have 0: "\<exists>k\<le>?n. \<exists>part. updates st = map (\<lambda>j. (j, ?n)) [0..<Suc k]
              \<and> archive st = version_entry # map entry_of (take k (idx_items env)) @ part
              \<and> length part \<le> 1"
      by blast
    from 0 1 2 3 show ?thesis by blast
  qed
qed

theorem export_progress_sequence_witness:
  "export env0 = (None, st0) \<and> updates st0 = [(0, 2), (1, 2), (2, 2)]
   \<and> sorted_wrt (<) (map fst (updates st0)) \<and> last (updates st0) = (2, 2)"
proof -
  have h: "export env0 = (None, st0)" by (rule export_env0)
  from export_progress_sequence[OF h] show ?thesis
    using h by (simp add: env0_def st0_def)
qed

text \<open>
  C9. Exporting an index without records succeeds when the collaborators do not fail (the
  count, the creation of the destination file, the two writes of the version entry and
  the iterator): the archive holds the version entry alone, and the progress sink has
  been called exactly once, with \<open>Update(0, 0)\<close>.
\<close>

theorem export_empty_index:
  assumes "idx_items env = []" and "count_err env = None" and "create_err env = None"
    and "tw_err env 0 = None" and "tw_err env 1 = None" and "iter_err env = None"
  shows "fst (export env) = None
    \<and> archive (snd (export env)) =
        [(\<lparr>Name = ExportVersionFilename, Mode = 420, Size = int (length CurrentExportVersion)\<rparr>,
          bytes_of_string CurrentExportVersion)]
    \<and> updates (snd (export env)) = [(0, 0)]"
  using assms
  by (simp add: export_unfold after_version_def version_entry_def version_header_def)

theorem export_empty_index_witness:
  "idx_items env_empty = [] \<and> fst (export env_empty) = None
   \<and> map (Name \<circ> fst) (archive (snd (export env_empty))) = [''.swarm-export-version'']
   \<and> updates (snd (export env_empty)) = [(0, 0)]"
proof -
  have h: "idx_items env_empty = []" "count_err env_empty = None" "create_err env_empty = None"
    "tw_err env_empty 0 = None" "tw_err env_empty 1 = None" "iter_err env_empty = None"
    by (simp_all add: env_empty_def)
  from export_empty_index[OF h] show ?thesis
    using h(1) by (simp add: ExportVersionFilename_def)
qed

section \<open>Properties of the migration\<close>

subsection \<open>The manifest and the loop\<close>

declare select_loop.simps [simp del]

lemma Add_Inr:
  "Add w m p en = Inr m' \<longleftrightarrow> p \<notin> fst ` set m \<and> add_err w p = None \<and> m' = m @ [(p, en)]"
  by (auto simp: Add_def split: option.splits)

lemma err_of_simps [simp]: "err_of (Inl err) = Some err" "err_of (Inr x) = None"
  by (simp_all add: err_of_def)

lemma is_leaf_simp [simp]: "is_leaf (p, d, er) = (\<not> d)"
  by (simp add: is_leaf_def)

lemma Done_Err: "Done ctx i \<Longrightarrow> Err ctx i = Some (cause ctx)"
  by (simp add: Err_def)

lemma select_loop_done:
  "Done ctx i \<Longrightarrow> takes_done ctx i \<Longrightarrow> select_loop w ctx i m ops = (Inl (cause ctx), [])"
  by (simp add: select_loop.simps Done_Err)

lemma select_loop_SendFile:
  "\<not> (Done ctx i \<and> takes_done ctx i) \<Longrightarrow>
   select_loop w ctx i m (SendFile f # ops) =
     (case Add w m (filepath f) (leaf_entry f) of
        Inl err \<Rightarrow> (Inl err, [EvUpdate (update_msg (Filename (mtdt f))),
                               EvAdd (filepath f) (leaf_entry f) (Some err)])
      | Inr m' \<Rightarrow> (case select_loop w ctx (Suc i) m' ops of
                      (res, evs') \<Rightarrow> (res, leaf_events f @ evs')))"
  by (auto simp: select_loop.simps[of _ _ i] Let_def leaf_entry_def leaf_events_def NewEntry_def
      split: sum.splits prod.splits)

lemma select_loop_other:
  "\<not> (Done ctx i \<and> takes_done ctx i) \<Longrightarrow> select_loop w ctx i m (SendErr er # ops) = (Inl er, [])"
  "\<not> (Done ctx i \<and> takes_done ctx i) \<Longrightarrow> select_loop w ctx i m (CloseErrC # ops) = (Inr m, [])"
  "\<not> (Done ctx i \<and> takes_done ctx i) \<Longrightarrow> select_loop w ctx i m (CloseFilesC # ops) = (Inr m, [])"
  "\<not> (Done ctx i \<and> takes_done ctx i) \<Longrightarrow> select_loop w ctx i m [] = (Inr m, [])"
  by (auto simp: select_loop.simps[of _ _ i])

text \<open>
  When the loop ends by \<open>break\<close>, the walk sent no error, and every file entry it sent
  has been added under its path, in the order of the sends.
\<close>

lemma select_loop_break:
  "select_loop w ctx i m (map SendFile sent @ err_part err @ [CloseErrC, CloseFilesC])
     = (Inr m', evs) \<Longrightarrow>
   err = None \<and> m' = m @ map (\<lambda>f. (filepath f, leaf_entry f)) sent \<and>
   evs = concat (map leaf_events sent) \<and>
   (\<forall>f \<in> set sent. filepath f \<notin> fst ` set m) \<and> distinct (map filepath sent)"
proof (induction sent arbitrary: i m evs)
  case Nil
  have nd: "\<not> (Done ctx i \<and> takes_done ctx i)"
    using Nil by (auto simp: select_loop_done)
  show ?case
    using Nil nd by (cases err) (auto simp: select_loop_other err_part_def)
next
  case (Cons f sent)
  let ?rest = "map SendFile sent @ err_part err @ [CloseErrC, CloseFilesC]"
  from Cons.prems have nd: "\<not> (Done ctx i \<and> takes_done ctx i)"
    by (auto simp: select_loop_done)
  with Cons.prems obtain m1 where a: "Add w m (filepath f) (leaf_entry f) = Inr m1"
    by (auto simp: select_loop_SendFile split: sum.splits)
  then have m1: "m1 = m @ [(filepath f, leaf_entry f)]" "filepath f \<notin> fst ` set m"
    by (auto simp: Add_Inr)
  from Cons.prems nd a obtain evs' where
    r: "select_loop w ctx (Suc i) m1 ?rest = (Inr m', evs')" and
    e: "evs = leaf_events f @ evs'"
    by (auto simp: select_loop_SendFile split: prod.splits)
  from Cons.IH[OF r] have ih: "err = None"
     "m' = m1 @ map (\<lambda>f. (filepath f, leaf_entry f)) sent"
     "evs' = concat (map leaf_events sent)" "\<forall>f \<in> set sent. filepath f \<notin> fst ` set m1"
     "distinct (map filepath sent)" by auto
  show ?case using ih m1 e by (auto simp: image_iff)
qed

text \<open>
  However the loop ends: it only makes \<open>Update\<close> and \<open>Add\<close> calls; an \<open>Add\<close> that
  succeeds is for a path the manifest did not have; no call but the last fails; and the
  error the loop returns is that of its last call, or the one received from \<open>errC\<close>, or
  the one of the context.
\<close>

lemma select_loop_events:
  "select_loop w ctx i m ops = (res, evs) \<Longrightarrow>
     (\<forall>ev \<in> set evs. is_update ev \<or> is_add ev) \<and>
     (\<forall>p en. EvAdd p en None \<in> set evs \<longrightarrow> p \<notin> fst ` set m) \<and>
     (\<forall>ev \<in> set (butlast evs). ev_err ev = None) \<and>
     (case res of
        Inr m' \<Rightarrow> (\<forall>ev \<in> set evs. ev_err ev = None)
      | Inl err \<Rightarrow> (evs \<noteq> [] \<and> ev_err (last evs) = Some err) \<or>
                   ((\<forall>ev \<in> set evs. ev_err ev = None) \<and>
                    ((\<exists>j. Done ctx j \<and> takes_done ctx j \<and> err = cause ctx)
                     \<or> SendErr err \<in> set ops)))"
proof (induction ops arbitrary: i m res evs)
  case Nil
  then show ?case
    by (cases "Done ctx i \<and> takes_done ctx i") (auto simp: select_loop_done select_loop_other)
next
  case (Cons op ops)
  show ?case
  proof (cases "Done ctx i \<and> takes_done ctx i")
    case True
    with Cons.prems show ?thesis by (auto simp: select_loop_done)
  next
    case nd: False
    show ?thesis
    proof (cases op)
      case (SendFile f)
      show ?thesis
      proof (cases "Add w m (filepath f) (leaf_entry f)")
        case (Inl err)
        with Cons.prems nd SendFile have "res = Inl err"
          "evs = [EvUpdate (update_msg (Filename (mtdt f))),
                  EvAdd (filepath f) (leaf_entry f) (Some err)]"
          by (simp_all add: select_loop_SendFile)
        then show ?thesis by simp
      next
        case (Inr m1)
        then have m1: "m1 = m @ [(filepath f, leaf_entry f)]" "filepath f \<notin> fst ` set m"
          by (auto simp: Add_Inr)
        from Cons.prems nd SendFile Inr obtain evs' where
          r: "select_loop w ctx (Suc i) m1 ops = (res, evs')" and e: "evs = leaf_events f @ evs'"
          by (auto simp: select_loop_SendFile split: prod.splits)
        note ih = Cons.IH[OF r]
        have le: "\<forall>ev \<in> set (leaf_events f). ev_err ev = None \<and> (is_update ev \<or> is_add ev)"
          by (simp add: leaf_events_def)
        have 1: "\<forall>ev \<in> set evs. is_update ev \<or> is_add ev"
          using ih le e by auto
        have 2: "\<forall>p en. EvAdd p en None \<in> set evs \<longrightarrow> p \<notin> fst ` set m"
          using ih m1 e by (auto simp: leaf_events_def)
        have 3: "\<forall>ev \<in> set (butlast evs). ev_err ev = None"
          using ih le e by (auto simp: butlast_append dest: in_set_butlastD)
        have 4: "(case res of
            Inr m' \<Rightarrow> (\<forall>ev \<in> set evs. ev_err ev = None)
          | Inl err \<Rightarrow> (evs \<noteq> [] \<and> ev_err (last evs) = Some err) \<or>
                   ((\<forall>ev \<in> set evs. ev_err ev = None) \<and>
                    ((\<exists>j. Done ctx j \<and> takes_done ctx j \<and> err = cause ctx)
                     \<or> SendErr err \<in> set (op # ops))))"
          using ih le e by (auto split: sum.splits)
        from 1 2 3 4 show ?thesis by blast
      qed
    next
      case (SendErr er)
      with Cons.prems nd show ?thesis by (auto simp: select_loop_other)
    next
      case CloseErrC
      with Cons.prems nd show ?thesis by (auto simp: select_loop_other)
    next
      case CloseFilesC
      with Cons.prems nd show ?thesis by (auto simp: select_loop_other)
    qed
  qed
qed


subsection \<open>The walk\<close>




lemma walk_task_shape:
  "\<exists>sent err. walk_task w node = map SendFile sent @ err_part err @ [CloseErrC, CloseFilesC]
     \<and> Walk (walkFn w node) (WalkVisits node) (WalkErr node) = (err, sent)"
  by (cases "Walk (walkFn w node) (WalkVisits node) (WalkErr node)")
     (auto simp: walk_task_def err_part_def)

subsection \<open>getOldDirectoryEntry\<close>

lemma getOldDirectoryEntry_Inr:
  assumes "getOldDirectoryEntry w addr = (Inr dir, evs)"
  shows "\<exists>buf node rootNode.
      store_get w addr = Inr buf \<and> UnmarshalNode w buf = Inr node
    \<and> LookupNode node RootPath = Inr rootNode
    \<and> dir_m dir = [(RootPath, \<lparr>Ref = ZeroAddress, Meta = n_metadata rootNode\<rparr>)]
    \<and> dir_chans dir = walk_task w node
    \<and> evs = [EvGo, EvAdd RootPath \<lparr>Ref = ZeroAddress, Meta = n_metadata rootNode\<rparr> None]"
  using assms
  by (auto simp: getOldDirectoryEntry_def joiner_New_def JoinReadAll_def Buffer_def Let_def
      NewDefaultManifest_def Add_Inr NewEntry_def split: sum.splits option.splits)

lemma getOldDirectoryEntry_Inl:
  assumes "getOldDirectoryEntry w addr = (Inl err, evs)"
  shows "evs = [] \<or> evs = [EvGo] \<or>
     (\<exists>buf node rootNode.
        store_get w addr = Inr buf \<and> UnmarshalNode w buf = Inr node
      \<and> LookupNode node RootPath = Inr rootNode
      \<and> evs = [EvGo, EvAdd RootPath \<lparr>Ref = ZeroAddress, Meta = n_metadata rootNode\<rparr> (Some err)])"
  using assms
  by (auto simp: getOldDirectoryEntry_def joiner_New_def JoinReadAll_def Buffer_def Let_def
      NewDefaultManifest_def NewEntry_def split: sum.splits option.splits)

subsection \<open>Evaluation of the examples\<close>

lemmas repair_eval =
  getOldFileEntry_def joiner_New_def JoinReadAll_def Buffer_def NewLimitWriteCloser_def
  limitMetadataLength_def ChunkSize_def NewDefaultManifest_def Add_def Store_def NewEntry_def
  Let_def RootPath_def getOldDirectoryEntry_def walk_task_def walkFn_def

lemmas dir_eval = DirectoryRepair_def w1_def node1_def repair_eval select_loop.simps Done_def
  Err_def err_of_def update_msg_def EntryMetadataFilenameKey_def EntryMetadataContentTypeKey_def
  ZeroAddress_def evs_dir_def evs_mid_def m_dir_def root1_def leaf_a_def leaf_d_def





lemma getOldDirectoryEntry_w1:
  "getOldDirectoryEntry w1 [0xd0] =
     (Inr \<lparr>dir_m = [(''/'', root1)], dir_chans = task1\<rparr>, [EvGo, EvAdd ''/'' root1 None])"
  by (simp add: w1_def node1_def task1_def root1_def repair_eval ZeroAddress_def)

lemma DirectoryRepair_w1_bg: "DirectoryRepair w1 ctx_bg [0xd0] = (([0x99], None), evs_dir)"
  by (simp add: dir_eval ctx_bg_def)



subsection \<open>FileRepair\<close>






subsection \<open>The legacy entry and its metadata\<close>

text \<open>The bound on the length applies to the read of the legacy entry.\<close>

lemma getOldFileEntry_entry_capped:
  "store_get w addr = Inr buf \<Longrightarrow> length buf > limitMetadataLength \<Longrightarrow>
   getOldFileEntry w addr = Inl OverflowError"
  by (simp add: getOldFileEntry_def joiner_New_def JoinReadAll_def NewLimitWriteCloser_def)

lemma length_big_metadata: "length big_metadata = Suc ChunkSize"
  by (simp add: big_metadata_def)

text \<open>
  C6. The claim is that the read of the metadata blob is capped at one chunk, and that a
  larger blob makes the migration fail. It does not hold of \<open>getOldFileEntry\<close>: the
  writer with the limit takes the legacy entry, and the metadata blob is read into a
  plain buffer. Here the metadata blob is one byte longer than a chunk, and the legacy
  entry is read with the metadata decoded from the whole blob.
\<close>

theorem getOldFileEntry_metadata_not_capped:
  "length big_metadata > limitMetadataLength
   \<and> UnmarshalEntry w_big [1, 3] = Inr \<lparr>reference = [0xf3], metadata = [0xa3]\<rparr>
   \<and> store_get w_big [0xa3] = Inr big_metadata
   \<and> getOldFileEntry w_big [0xe3] = Inr \<lparr>filepath = [],
        entry = \<lparr>reference = [0xf3], metadata = [0xa3]\<rparr>,
        mtdt = \<lparr>Filename = ''long.txt'', MimeType = ''text/plain''\<rparr>\<rparr>"
  by (simp add: length_big_metadata limitMetadataLength_def w_big_def getOldFileEntry_def
      joiner_New_def JoinReadAll_def Buffer_def NewLimitWriteCloser_def ChunkSize_def)

subsection \<open>DirectoryRepair\<close>

lemma not_store: "is_update ev \<or> is_add ev \<Longrightarrow> \<not> is_store ev"
  by (cases ev) auto









text \<open>
  C7. In a directory migration that adds anything to the new manifest, the first entry
  added is that of the root path: it has the zero reference and the metadata of the root
  node of the legacy trie. No other entry is added under the root path afterwards, so a
  manifest that is stored begins with the root entry and has it once. (A migration that
  fails before it has a manifest adds nothing.)
\<close>

theorem DirectoryRepair_root_first:
  assumes "DirectoryRepair w ctx addr = (res, evs)"
  shows "(filter is_add evs = [] \<and> snd res \<noteq> None) \<or>
     (\<exists>buf node rootNode r rest.
        store_get w addr = Inr buf \<and> UnmarshalNode w buf = Inr node
      \<and> LookupNode node RootPath = Inr rootNode
      \<and> filter is_add evs
           = EvAdd RootPath \<lparr>Ref = ZeroAddress, Meta = n_metadata rootNode\<rparr> r # rest
      \<and> (\<forall>p en. EvAdd p en None \<in> set rest \<longrightarrow> p \<noteq> RootPath)
      \<and> (snd res = None \<longrightarrow> r = None)
      \<and> (\<forall>m a. EvStore m a \<in> set evs \<longrightarrow>
            (\<exists>leaves. m = (RootPath, \<lparr>Ref = ZeroAddress, Meta = n_metadata rootNode\<rparr>) # leaves
                \<and> RootPath \<notin> fst ` set leaves)))"
proof -
  obtain r0 evs0 where g: "getOldDirectoryEntry w addr = (r0, evs0)"
    by (cases "getOldDirectoryEntry w addr") auto
  show ?thesis
  proof (cases r0)
    case (Inl e0)
    with assms g have 1: "res = (ZeroAddress, Some e0)" "evs = evs0"
      by (auto simp: DirectoryRepair_def)
    from getOldDirectoryEntry_Inl[OF g[unfolded Inl]] 1 show ?thesis
      by auto
  next
    case (Inr dir)
    from getOldDirectoryEntry_Inr[OF g[unfolded Inr]] obtain buf node rootNode where
      d: "store_get w addr = Inr buf" "UnmarshalNode w buf = Inr node"
         "LookupNode node RootPath = Inr rootNode"
         "dir_m dir = [(RootPath, \<lparr>Ref = ZeroAddress, Meta = n_metadata rootNode\<rparr>)]"
         "dir_chans dir = walk_task w node"
         "evs0 = [EvGo, EvAdd RootPath \<lparr>Ref = ZeroAddress, Meta = n_metadata rootNode\<rparr> None]"
      by blast
    let ?root = "\<lparr>Ref = ZeroAddress, Meta = n_metadata rootNode\<rparr>"
    obtain r1 evs1 where l: "select_loop w ctx 0 (dir_m dir) (dir_chans dir) = (r1, evs1)"
      by (cases "select_loop w ctx 0 (dir_m dir) (dir_chans dir)") auto
    from select_loop_events[OF l] d(4)
    have ua: "\<forall>ev \<in> set evs1. is_update ev \<or> is_add ev"
      and np: "\<forall>p en. EvAdd p en None \<in> set evs1 \<longrightarrow> p \<noteq> RootPath"
      by auto
    from ua have ns: "\<forall>ev \<in> set evs1. \<not> is_store ev" using not_store by blast
    have rest: "\<forall>p en. EvAdd p en None \<in> set (filter is_add evs1) \<longrightarrow> p \<noteq> RootPath"
      using np by auto
    show ?thesis
    proof (cases r1)
      case (Inl e1)
      with assms g Inr l have 1: "res = (ZeroAddress, Some e1)" "evs = evs0 @ evs1"
        by (auto simp: DirectoryRepair_def)
      have f: "filter is_add evs = EvAdd RootPath ?root None # filter is_add evs1"
        using 1 d(6) by simp
      have s: "\<forall>m a. EvStore m a \<in> set evs \<longrightarrow>
            (\<exists>leaves. m = (RootPath, ?root) # leaves \<and> RootPath \<notin> fst ` set leaves)"
        using ns 1 d(6) by auto
      from d(1-3) f rest s 1 show ?thesis by auto
    next
      case (Inr m)
      from walk_task_shape[of w node] obtain sent err where
        t: "walk_task w node = map SendFile sent @ err_part err @ [CloseErrC, CloseFilesC]"
        by blast
      from select_loop_break[OF l[unfolded Inr d(5) t]] d(4)
      have m: "m = (RootPath, ?root) # map (\<lambda>f. (filepath f, leaf_entry f)) sent"
        and nr: "\<forall>f \<in> set sent. filepath f \<noteq> RootPath"
        by auto
      from assms g \<open>r0 = Inr dir\<close> l Inr obtain x where
        1: "evs = evs0 @ evs1 @ [EvStore m x]" "snd res = None \<longrightarrow> True"
        by (auto simp: DirectoryRepair_def split: sum.splits)
      have f: "filter is_add evs = EvAdd RootPath ?root None # filter is_add evs1"
        using 1 d(6) by simp
      have "RootPath \<notin> fst ` set (map (\<lambda>f. (filepath f, leaf_entry f)) sent)"
        using nr by (auto simp: image_iff)
      with m have s: "\<forall>m' a. EvStore m' a \<in> set evs \<longrightarrow>
            (\<exists>leaves. m' = (RootPath, ?root) # leaves \<and> RootPath \<notin> fst ` set leaves)"
        using ns 1 d(6) by auto
      from d(1-3) f rest s show ?thesis by auto
    qed
  qed
qed

theorem DirectoryRepair_root_first_witness:
  "DirectoryRepair w1 ctx_bg [0xd0] = (([0x99], None), evs_dir)
   \<and> hd (filter is_add evs_dir) = EvAdd ''/'' root1 None
   \<and> Ref root1 = ZeroAddress
   \<and> LookupNode node1 RootPath = Inr \<lparr>n_entry = [], n_metadata = Meta root1\<rparr>
   \<and> length (filter (\<lambda>pe. fst pe = ''/'') m_dir) = 1"
proof -
  have h: "DirectoryRepair w1 ctx_bg [0xd0] = (([0x99], None), evs_dir)"
    by (rule DirectoryRepair_w1_bg)
  from DirectoryRepair_root_first[OF h] show ?thesis
    using h by (simp add: evs_dir_def m_dir_def node1_def root1_def ZeroAddress_def RootPath_def)
qed

text \<open>
  C10. When the trie decoded at the address has no root path entry, \<open>DirectoryRepair\<close>
  returns the error of the lookup with the zero reference, and has caused no event: the
  walk task was not launched and nothing was added to a manifest.
\<close>

theorem DirectoryRepair_no_root:
  assumes "store_get w addr = Inr buf" and "UnmarshalNode w buf = Inr node"
    and "LookupNode node RootPath = Inl err"
  shows "DirectoryRepair w ctx addr = ((ZeroAddress, Some err), [])"
  using assms
  by (simp add: DirectoryRepair_def getOldDirectoryEntry_def joiner_New_def JoinReadAll_def
      Buffer_def)

theorem DirectoryRepair_no_root_witness:
  "store_get w1 [0xd1] = Inr [0x11] \<and> UnmarshalNode w1 [0x11] = Inr node_noroot
   \<and> LookupNode node_noroot RootPath = Inl NotFoundError
   \<and> DirectoryRepair w1 ctx_bg [0xd1] = ((ZeroAddress, Some NotFoundError), [])"
proof -
  have h: "store_get w1 [0xd1] = Inr [0x11]" "UnmarshalNode w1 [0x11] = Inr node_noroot"
    "LookupNode node_noroot RootPath = Inl NotFoundError"
    by (simp_all add: w1_def node_noroot_def)
  from DirectoryRepair_no_root[OF h] h show ?thesis by simp
qed

subsection \<open>The walk task\<close>


lemma filter_sends [simp]:
  "filter (\<lambda>op. op = CloseErrC) (map SendFile sent) = []"
  "filter (\<lambda>op. op = CloseFilesC) (map SendFile sent) = []"
  "filter (\<lambda>op. op = CloseErrC) (map SendErr errs) = []"
  "filter (\<lambda>op. op = CloseFilesC) (map SendErr errs) = []"
  by (induction sent) (simp_all add: filter_empty_conv)



subsection \<open>Failure and cancellation\<close>




end
